theory Spec2Isabelle
  imports Main "HOL-Library.AList" "HOL-Library.Sublist"
begin

section \<open>Values, dictionaries and strings\<close>

text \<open>
  The embedding follows \<^verbatim>\<open>cumulusci/core/tasks.py\<close>. Python values that occur as option
  values are the values a parsed configuration file or a keyword argument carries. Of these only
  \<open>VStr\<close> has a \<^verbatim>\<open>startswith\<close> attribute; on every other constructor the attribute access
  \<^verbatim>\<open>value.startswith\<close> raises \<^verbatim>\<open>AttributeError\<close>.
\<close>

datatype pyvalue =
    VNone
  | VBool bool
  | VInt int
  | VStr string
  | VList "pyvalue list"

text \<open>
  A \<^verbatim>\<open>dict\<close> with string keys is an association list in insertion order (the iteration
  order of \<^verbatim>\<open>items()\<close>); a well-formed dict has distinct keys. \<open>d[k] = v\<close> keeps the
  position of an existing key and appends a new one, which is \<^const>\<open>AList.update\<close>.
\<close>

type_synonym pydict = "(string \<times> pyvalue) list"

definition dict_get :: "pydict \<Rightarrow> string \<Rightarrow> pyvalue option" where
  "dict_get d k = map_of d k"

definition dict_contains :: "string \<Rightarrow> pydict \<Rightarrow> bool" where
  "dict_contains k d = (map_of d k \<noteq> None)"

definition dict_set :: "pydict \<Rightarrow> string \<Rightarrow> pyvalue \<Rightarrow> pydict" where
  "dict_set d k v = AList.update k v d"

text \<open>\<^verbatim>\<open>d.update(other)\<close>: every item of \<open>other\<close> is stored into \<open>d\<close>, in order.\<close>

definition dict_update :: "pydict \<Rightarrow> pydict \<Rightarrow> pydict" where
  "dict_update d other = fold (\<lambda>(k, v) acc. dict_set acc k v) other d"

text \<open>\<^verbatim>\<open>s.startswith(p)\<close>.\<close>

definition startswith :: "string \<Rightarrow> string \<Rightarrow> bool" where
  "startswith s p = prefix p s"

text \<open>\<^verbatim>\<open>s.replace(old, new, 1)\<close>: the leftmost occurrence of \<open>old\<close> is replaced, if any.\<close>

fun str_replace1 :: "string \<Rightarrow> string \<Rightarrow> string \<Rightarrow> string" where
  "str_replace1 old new [] = (if old = [] then new else [])"
| "str_replace1 old new (c # cs) =
     (if prefix old (c # cs) then new @ drop (length old) (c # cs)
      else c # str_replace1 old new cs)"

text \<open>\<^verbatim>\<open>sep.join(xs)\<close>.\<close>

fun str_join :: "string \<Rightarrow> string list \<Rightarrow> string" where
  "str_join sep [] = []"
| "str_join sep [x] = x"
| "str_join sep (x # y # ys) = x @ sep @ str_join sep (y # ys)"

text \<open>\<^verbatim>\<open>'%15s' % s\<close>: right-justified in a field of 15 characters.\<close>

definition rjust15 :: "string \<Rightarrow> string" where
  "rjust15 s = replicate (15 - length s) CHR '' '' @ s"

section \<open>Exceptions\<close>

text \<open>
  An exception is its class and its message. \<open>NonException\<close> stands for the classes that derive
  from \<^verbatim>\<open>BaseException\<close> but not from \<^verbatim>\<open>Exception\<close> (\<^verbatim>\<open>KeyboardInterrupt\<close>,
  \<^verbatim>\<open>SystemExit\<close>): \<^verbatim>\<open>except Exception\<close> does not catch them.
\<close>

datatype exn_class =
    TaskRequiresSalesforceOrg
  | TaskOptionsError
  | AssertionError
  | AttributeError
  | UserException string
  | NonException string

datatype exn = Exn exn_class string

fun is_Exception :: "exn \<Rightarrow> bool" where
  "is_Exception (Exn (NonException n) m) = False"
| "is_Exception (Exn c m) = True"

section \<open>The collaborators: project config, org config, task config\<close>

text \<open>
  The error-reporting client (\<^verbatim>\<open>project_config.sentry\<close>) is an external library. It is
  modelled as a recording double: it keeps the calls it received, and
  \<^verbatim>\<open>captureException()\<close> answers with the event handle \<open>response\<close>, which may be any value.
  \<^verbatim>\<open>captureException()\<close> takes no argument and reports the exception being handled; the
  model passes that exception explicitly.
\<close>

datatype sentry_call = TagsContext pydict | CaptureException exn

record sentry_client =
  calls :: "sentry_call list"
  response :: pyvalue

definition tags_context :: "pydict \<Rightarrow> sentry_client \<Rightarrow> sentry_client" where
  "tags_context tags c = c\<lparr>calls := calls c @ [TagsContext tags]\<rparr>"

definition captureException :: "exn \<Rightarrow> sentry_client \<Rightarrow> pyvalue \<times> sentry_client" where
  "captureException e c = (response c, c\<lparr>calls := calls c @ [CaptureException e]\<rparr>)"

text \<open>
  The project config: \<open>attrs\<close> is what reading an attribute by name gives (\<open>None\<close> when the
  object has no such attribute); \<open>use_sentry\<close>, \<open>sentry\<close> and \<open>sentry_event\<close> are the
  attributes the module reads and writes by name.
\<close>

record project_config =
  attrs :: "string \<Rightarrow> pyvalue option"
  use_sentry :: bool
  sentry :: sentry_client
  sentry_event :: "pyvalue option"

text \<open>\<^verbatim>\<open>getattr(obj, name, default)\<close>.\<close>

definition getattr_default :: "project_config \<Rightarrow> string \<Rightarrow> pyvalue \<Rightarrow> pyvalue" where
  "getattr_default pc name dflt = (case attrs pc name of Some v \<Rightarrow> v | None \<Rightarrow> dflt)"

record org_config =
  username :: string
  org_id :: string
  scratch :: pyvalue

text \<open>
  Dict objects that are shared by reference live in a store: an address is an index into the
  list of dict objects, and allocating appends. \<^verbatim>\<open>task_config.options\<close> is \<^verbatim>\<open>None\<close> or a
  reference to a dict.
\<close>

type_synonym addr = nat

type_synonym heap = "pydict list"

definition alloc :: "heap \<Rightarrow> pydict \<Rightarrow> addr \<times> heap" where
  "alloc h d = (length h, h @ [d])"

record task_config =
  tc_options :: "addr option"

text \<open>
  The state outside a task instance: the store of dicts, the one project config the tasks share,
  and the lines written to the module's logger.
\<close>

record world =
  heap :: heap
  project_config :: project_config
  logger :: "string list"

definition logger_info :: "string \<Rightarrow> world \<Rightarrow> world" where
  "logger_info line w = w\<lparr>logger := logger w @ [line]\<rparr>"

section \<open>Task instances and task classes\<close>

record task =
  task_config :: task_config
  org_config :: "org_config option"
  return_values :: pydict
  result :: pyvalue
  flow :: "string option"
  options :: addr

text \<open>
  A task class gives the class attributes and the two methods that subclasses of \<^verbatim>\<open>Task\<close>
  override and that \<^verbatim>\<open>__call__\<close> dispatches to: the action \<^verbatim>\<open>_run_task\<close>, which returns a
  value or raises and may write the instance and the world before either, and the interceptor
  \<^verbatim>\<open>_process_exception\<close>, which may change the world and may itself raise (\<open>Some\<close>); like
  the two interceptors of the module, it reads the instance and does not write it.
  \<open>task_options\<close> is \<open>None\<close> when the class attribute is \<^verbatim>\<open>None\<close>. An action that does not
  return is outside the model: the claims are about actions that return or raise.
\<close>

record task_class =
  class_name :: string
  task_options :: "(string \<times> pydict) list option"
  salesforce_task :: bool
  run_task :: "task \<Rightarrow> world \<Rightarrow> (exn + pyvalue) \<times> task \<times> world"
  process_exception :: "task \<Rightarrow> exn \<Rightarrow> world \<Rightarrow> exn option \<times> world"

section \<open>Construction\<close>

text \<open>\<^verbatim>\<open>_init_logger\<close> binds the module's logger; \<^verbatim>\<open>_init_mixins\<close> is \<^verbatim>\<open>pass\<close> in \<^verbatim>\<open>Task\<close>.\<close>

definition init_logger :: "world \<Rightarrow> world" where
  "init_logger w = w"

definition init_mixins :: "world \<Rightarrow> world" where
  "init_mixins w = w"

text \<open>
  The body of the loop of \<^verbatim>\<open>_init_options\<close> for one item of the snapshot
  \<^verbatim>\<open>list(self.options.items())\<close>; \<open>a\<close> is the dict \<^verbatim>\<open>self.options\<close> refers to. On a value
  that is not a string \<^verbatim>\<open>value.startswith\<close> raises \<^verbatim>\<open>AttributeError\<close>, which the loop
  catches and passes.
\<close>

definition resolve_option :: "project_config \<Rightarrow> addr \<Rightarrow> string \<times> pyvalue \<Rightarrow> heap \<Rightarrow> heap" where
  "resolve_option pc a item h =
     (case item of (option, value) \<Rightarrow>
        (case value of
           VStr s \<Rightarrow>
             if startswith s ''$project_config.''
             then (let attr = str_replace1 ''$project_config.'' [] s
                   in h[a := dict_set (h ! a) option (getattr_default pc attr VNone)])
             else h
         | _ \<Rightarrow> h))"

text \<open>
  \<^verbatim>\<open>_init_options\<close>: \<^verbatim>\<open>self.options\<close> is bound to the dict of the task config itself (no
  copy), or to a new empty dict when the task config has none; the keyword arguments are stored
  into it and the lookups are resolved in it. The result is the reference \<^verbatim>\<open>self.options\<close>.
\<close>

definition init_options :: "task_config \<Rightarrow> pydict \<Rightarrow> world \<Rightarrow> addr \<times> world" where
  "init_options tc kwargs w =
     (let (a, h1) = (case tc_options tc of None \<Rightarrow> alloc (heap w) [] | Some r \<Rightarrow> (r, heap w));
          h2 = (if kwargs \<noteq> [] then h1[a := dict_update (h1 ! a) kwargs] else h1);
          h3 = fold (resolve_option (project_config w) a) (h2 ! a) h2
      in (a, w\<lparr>heap := h3\<rparr>))"

definition get_task_options :: "task_class \<Rightarrow> exn + (string \<times> pydict) list" where
  "get_task_options cls =
     (case task_options cls of
        None \<Rightarrow> Inl (Exn AssertionError
          (CHR 0x27 # class_name cls @ CHR 0x27 #
           '' needs a task_config or to override get task config!''))
      | Some defs \<Rightarrow> Inr defs)"

text \<open>\<^verbatim>\<open>config.get('required') is True\<close>.\<close>

definition is_required :: "pydict \<Rightarrow> bool" where
  "is_required config = (dict_get config ''required'' = Some (VBool True))"

text \<open>The loop of \<^verbatim>\<open>_validate_options\<close> that collects \<^verbatim>\<open>missing_required\<close>.\<close>

definition missing_required :: "(string \<times> pydict) list \<Rightarrow> pydict \<Rightarrow> string list" where
  "missing_required defs opts =
     fold (\<lambda>(name, config) acc.
             if is_required config \<and> \<not> dict_contains name opts then acc @ [name] else acc)
          defs []"

definition validate_options :: "task_class \<Rightarrow> task \<Rightarrow> world \<Rightarrow> exn option" where
  "validate_options cls self w =
     (case get_task_options cls of
        Inl e \<Rightarrow> Some e
      | Inr defs \<Rightarrow>
          (let missing = missing_required defs (heap w ! options self)
           in if missing \<noteq> []
              then Some (Exn TaskOptionsError
                     (class_name cls @ '' requires the options ('' @ str_join '', '' missing @
                      '') and no values were provided''))
              else None))"

text \<open>\<^verbatim>\<open>_update_credentials\<close> and \<^verbatim>\<open>_init_task\<close> are \<^verbatim>\<open>pass\<close> in \<^verbatim>\<open>Task\<close>.\<close>

definition update_credentials :: "world \<Rightarrow> world" where
  "update_credentials w = w"

definition init_task :: "world \<Rightarrow> world" where
  "init_task w = w"

text \<open>
  \<^verbatim>\<open>Task.__init__(project_config, task_config, org_config, flow, **kwargs)\<close>. The project
  config is the one of the world. The result is the exception raised or the instance, with the
  world as construction left it.
\<close>

definition Task_init ::
  "task_class \<Rightarrow> task_config \<Rightarrow> org_config option \<Rightarrow> string option \<Rightarrow> pydict \<Rightarrow> world
     \<Rightarrow> (exn + task) \<times> world" where
  "Task_init cls tc oc fl kwargs w =
     (if salesforce_task cls \<and> oc = None
      then (Inl (Exn TaskRequiresSalesforceOrg
                  (''This task requires a Saleforce org_config but'' @
                   '' none was passed to the Task constructor'')), w)
      else
        (let w1 = init_mixins (init_logger w);
             (a, w2) = init_options tc kwargs w1;
             self = \<lparr>task_config = tc, org_config = oc, return_values = [], result = VNone,
                     flow = fl, options = a\<rparr>
         in case validate_options cls self w2 of
              Some e \<Rightarrow> (Inl e, w2)
            | None \<Rightarrow> (Inr self, init_task (update_credentials w2))))"

section \<open>Execution\<close>

text \<open>
  \<^verbatim>\<open>_log_begin\<close>. Reading \<^verbatim>\<open>self.org_config.username\<close> when the org config is \<^verbatim>\<open>None\<close>
  raises \<^verbatim>\<open>AttributeError\<close>, after the first line was logged.
\<close>

definition log_begin :: "task_class \<Rightarrow> task \<Rightarrow> world \<Rightarrow> exn option \<times> world" where
  "log_begin cls self w =
     (let w1 = logger_info (''Beginning task: '' @ class_name cls) w
      in if salesforce_task cls \<and> flow self = None
         then (case org_config self of
                 None \<Rightarrow>
                   (Some (Exn AttributeError
                      (CHR 0x27 # ''NoneType'' @ CHR 0x27 # '' object has no attribute '' @
                       CHR 0x27 # ''username'' @ [CHR 0x27])), w1)
               | Some oc \<Rightarrow>
                   (let w2 = logger_info (rjust15 ''As user:'' @ '' '' @ username oc) w1;
                        w3 = logger_info (rjust15 ''In org:'' @ '' '' @ org_id oc) w2
                    in (None, logger_info [] w3)))
         else (None, logger_info [] w1))"

text \<open>
  The \<^verbatim>\<open>except Exception as e\<close> clause of \<^verbatim>\<open>__call__\<close>: an exception that is not an
  \<^verbatim>\<open>Exception\<close> passes by; otherwise the interceptor runs and the bare \<^verbatim>\<open>raise\<close> re-raises
  \<open>e\<close>, unless the interceptor raised first.
\<close>

definition except_Exception ::
  "task_class \<Rightarrow> task \<Rightarrow> exn \<Rightarrow> world \<Rightarrow> (exn + pydict) \<times> task \<times> world" where
  "except_Exception cls self e w =
     (if is_Exception e
      then (case process_exception cls self e w of
              (Some e', w') \<Rightarrow> (Inl e', self, w')
            | (None, w') \<Rightarrow> (Inl e, self, w'))
      else (Inl e, self, w))"

text \<open>\<^verbatim>\<open>Task.__call__\<close>: the mapping returned or the exception raised, the instance and the world.\<close>

definition Task_call :: "task_class \<Rightarrow> task \<Rightarrow> world \<Rightarrow> (exn + pydict) \<times> task \<times> world" where
  "Task_call cls self w =
     (case log_begin cls self w of
        (Some e, w1) \<Rightarrow> except_Exception cls self e w1
      | (None, w1) \<Rightarrow>
          (case run_task cls self w1 of
             (Inl e, self2, w2) \<Rightarrow> except_Exception cls self2 e w2
           | (Inr r, self2, w2) \<Rightarrow>
               (let self3 = self2\<lparr>result := r\<rparr>
                in (Inr (return_values self3), self3, w2))))"

text \<open>The methods of \<^verbatim>\<open>Task\<close> itself: both are \<^verbatim>\<open>pass\<close>.\<close>

definition Task_run_task :: "task \<Rightarrow> world \<Rightarrow> (exn + pyvalue) \<times> task \<times> world" where
  "Task_run_task self w = (Inr VNone, self, w)"

definition Task_process_exception :: "task \<Rightarrow> exn \<Rightarrow> world \<Rightarrow> exn option \<times> world" where
  "Task_process_exception self e w = (None, w)"

section \<open>The interceptor of \<^verbatim>\<open>BaseTask\<close>\<close>

text \<open>
  \<^verbatim>\<open>BaseTask\<close> and \<^verbatim>\<open>SchematicTask\<close> take further methods from mixins of other modules;
  of \<^verbatim>\<open>BaseTask\<close> only the interceptor, which this module defines, is modelled. These are the
  tags it builds; \<open>name\<close> is \<^verbatim>\<open>self.__class__.__name__\<close>.
\<close>

definition BaseTask_tags :: "string \<Rightarrow> task \<Rightarrow> world \<Rightarrow> pydict" where
  "BaseTask_tags name self w =
     (let tags = [(''task class'', VStr name)];
          tags1 = (case org_config self of
                     None \<Rightarrow> tags
                   | Some oc \<Rightarrow>
                       dict_set (dict_set tags ''org username'' (VStr (username oc)))
                         ''scratch org'' (VBool (scratch oc = VBool True)))
      in fold (\<lambda>(key, value) acc. dict_set acc (''option_'' @ key) value)
           (heap w ! options self) tags1)"

definition BaseTask_process_exception ::
  "string \<Rightarrow> task \<Rightarrow> exn \<Rightarrow> world \<Rightarrow> exn option \<times> world" where
  "BaseTask_process_exception name self e w =
     (if use_sentry (project_config w)
      then (let w1 = logger_info ''Logging error to sentry.io'' w;
                tags = BaseTask_tags name self w1;
                pc = project_config w1;
                c1 = tags_context tags (sentry pc);
                (resp, c2) = captureException e c1
            in (None, w1\<lparr>project_config := pc\<lparr>sentry := c2, sentry_event := Some resp\<rparr>\<rparr>))
      else (None, w))"

section \<open>Auxiliary notions for the proofs\<close>

text \<open>
  What one pass of the loop body of \<^verbatim>\<open>_init_options\<close> does to the dict it writes, and the
  value an item holds once the loop is over. Both are only used to reason about
  \<^const>\<open>resolve_option\<close> and \<^const>\<open>init_options\<close>.
\<close>

definition resolve_item :: "project_config \<Rightarrow> string \<times> pyvalue \<Rightarrow> pydict \<Rightarrow> pydict" where
  "resolve_item pc item d =
     (case item of (option, value) \<Rightarrow>
        (case value of
           VStr s \<Rightarrow>
             if startswith s ''$project_config.''
             then dict_set d option
                    (getattr_default pc (str_replace1 ''$project_config.'' [] s) VNone)
             else d
         | _ \<Rightarrow> d))"

definition resolved_value :: "project_config \<Rightarrow> pyvalue \<Rightarrow> pyvalue" where
  "resolved_value pc value =
     (case value of
        VStr s \<Rightarrow>
          if startswith s ''$project_config.''
          then getattr_default pc (str_replace1 ''$project_config.'' [] s) VNone
          else value
      | _ \<Rightarrow> value)"

text \<open>The dict a task config refers to; the empty dict when it refers to none.\<close>

definition config_options :: "task_config \<Rightarrow> heap \<Rightarrow> pydict" where
  "config_options tc h = (case tc_options tc of None \<Rightarrow> [] | Some r \<Rightarrow> h ! r)"

text \<open>
  A reference held by a task config points into the store, and the dict it points to has
  distinct keys.
\<close>

definition config_ok :: "task_config \<Rightarrow> heap \<Rightarrow> bool" where
  "config_ok tc h =
     (case tc_options tc of
        None \<Rightarrow> True
      | Some r \<Rightarrow> r < length h \<and> distinct (map fst (h ! r)))"

section \<open>Example inputs\<close>

text \<open>
  A project config whose only attribute is \<open>foo = 42\<close>, with error reporting switched on, and a
  world whose store holds one dict,
  \<^verbatim>\<open>{'x': 1, 'y': '$project_config.foo', 'z': '$project_config.missing'}\<close>.
\<close>

definition demo_project :: project_config where
  "demo_project =
     \<lparr>attrs = [''foo'' \<mapsto> VInt 42], use_sentry = True,
      sentry = \<lparr>calls = [], response = VStr ''event-1''\<rparr>, sentry_event = None\<rparr>"

definition demo_world :: world where
  "demo_world =
     \<lparr>heap = [[(''x'', VInt 1), (''y'', VStr ''$project_config.foo''),
               (''z'', VStr ''$project_config.missing'')]],
      project_config = demo_project, logger = []\<rparr>"

definition demo_org :: org_config where
  "demo_org = \<lparr>username = ''user@example.com'', org_id = ''00D000000000001'', scratch = VBool True\<rparr>"

text \<open>The class \<^verbatim>\<open>Task\<close> itself: no declared options, no org needed, both methods \<^verbatim>\<open>pass\<close>.\<close>

definition Task_class :: task_class where
  "Task_class =
     \<lparr>class_name = ''Task'', task_options = Some [], salesforce_task = False,
      run_task = Task_run_task, process_exception = Task_process_exception\<rparr>"

text \<open>A task class that needs an org and declares the options \<open>a\<close>, \<open>x\<close>, \<open>b\<close> required, \<open>c\<close> not.\<close>

definition demo_options :: "(string \<times> pydict) list" where
  "demo_options =
     [(''a'', [(''required'', VBool True)]),
      (''x'', [(''required'', VBool True)]),
      (''b'', [(''description'', VStr ''b''), (''required'', VBool True)]),
      (''c'', [(''required'', VBool False)])]"

definition demo_class :: task_class where
  "demo_class =
     \<lparr>class_name = ''Deploy'', task_options = Some demo_options, salesforce_task = True,
      run_task = Task_run_task, process_exception = Task_process_exception\<rparr>"

text \<open>A world whose store holds one empty dict, for a task config with \<^verbatim>\<open>options = {}\<close>.\<close>

definition empty_config_world :: world where
  "empty_config_world = \<lparr>heap = [[]], project_config = demo_project, logger = []\<rparr>"

text \<open>An instance whose options are the dict at address 0.\<close>

definition demo_task :: task where
  "demo_task =
     \<lparr>task_config = \<lparr>tc_options = Some 0\<rparr>, org_config = Some demo_org, return_values = [],
      result = VNone, flow = None, options = 0\<rparr>"

text \<open>A class that declares \<open>path\<close> required, and one that declares \<open>z\<close> required.\<close>

definition path_class :: task_class where
  "path_class =
     \<lparr>class_name = ''Copy'', task_options = Some [(''path'', [(''required'', VBool True)])],
      salesforce_task = False,
      run_task = Task_run_task, process_exception = Task_process_exception\<rparr>"

definition z_class :: task_class where
  "z_class =
     \<lparr>class_name = ''Zed'', task_options = Some [(''z'', [(''required'', VBool True)])],
      salesforce_task = False,
      run_task = Task_run_task, process_exception = Task_process_exception\<rparr>"

text \<open>
  Actions and interceptors for the examples: an action that raises \<^verbatim>\<open>ValueError\<close>, one that
  stores a return value and then raises, one that is interrupted (\<^verbatim>\<open>KeyboardInterrupt\<close> is
  not an \<^verbatim>\<open>Exception\<close>), one that stores a return value and returns 0; and an interceptor that
  raises itself.
\<close>

definition raising_action :: "task \<Rightarrow> world \<Rightarrow> (exn + pyvalue) \<times> task \<times> world" where
  "raising_action self w = (Inl (Exn (UserException ''ValueError'') ''boom''), self, w)"

definition partial_action :: "task \<Rightarrow> world \<Rightarrow> (exn + pyvalue) \<times> task \<times> world" where
  "partial_action self w =
     (Inl (Exn (UserException ''ValueError'') ''boom''),
      self\<lparr>return_values := dict_set (return_values self) ''step'' (VInt 1)\<rparr>, w)"

definition interrupted_action :: "task \<Rightarrow> world \<Rightarrow> (exn + pyvalue) \<times> task \<times> world" where
  "interrupted_action self w = (Inl (Exn (NonException ''KeyboardInterrupt'') []), self, w)"

definition returning_action :: "task \<Rightarrow> world \<Rightarrow> (exn + pyvalue) \<times> task \<times> world" where
  "returning_action self w =
     (Inr (VInt 0), self\<lparr>return_values := dict_set (return_values self) ''id'' (VInt 7)\<rparr>, w)"

definition failing_interceptor :: "task \<Rightarrow> exn \<Rightarrow> world \<Rightarrow> exn option \<times> world" where
  "failing_interceptor self e w =
     (Some (Exn (UserException ''ConnectionError'') ''report not sent''), w)"

definition action_class ::
  "(task \<Rightarrow> world \<Rightarrow> (exn + pyvalue) \<times> task \<times> world) \<Rightarrow>
   (task \<Rightarrow> exn \<Rightarrow> world \<Rightarrow> exn option \<times> world) \<Rightarrow> task_class" where
  "action_class action interceptor =
     \<lparr>class_name = ''Job'', task_options = Some [], salesforce_task = True,
      run_task = action, process_exception = interceptor\<rparr>"

section \<open>Dictionaries, strings and the resolution loop\<close>

lemma str_replace1_prefix: "prefix p s \<Longrightarrow> str_replace1 p [] s = drop (length p) s"
  by (cases s) auto

lemma map_of_dict_update: "map_of (dict_update d other) = map_of d ++ map_of (rev other)"
proof (induction other arbitrary: d)
  case Nil
  then show ?case by (simp add: dict_update_def)
next
  case (Cons p ps)
  obtain k v where p: "p = (k, v)" by (cases p)
  have "dict_update d (p # ps) = dict_update (dict_set d k v) ps"
    by (simp add: dict_update_def p)
  then have "map_of (dict_update d (p # ps)) = map_of (dict_set d k v) ++ map_of (rev ps)"
    by (simp add: Cons.IH)
  also have "\<dots> = map_of d ++ map_of (rev (p # ps))"
    by (simp add: p dict_set_def update_conv' fun_eq_iff map_add_def split: option.splits)
  finally show ?case .
qed

lemma distinct_dict_update: "distinct (map fst d) \<Longrightarrow> distinct (map fst (dict_update d other))"
  unfolding dict_update_def
  by (induction other arbitrary: d) (auto simp: dict_set_def distinct_update)

lemma fold_resolve_option:
  "a < length h \<Longrightarrow>
   fold (resolve_option pc a) items h = h[a := fold (resolve_item pc) items (h ! a)]"
proof (induction items arbitrary: h)
  case Nil
  then show ?case by simp
next
  case (Cons item items)
  obtain k v where item: "item = (k, v)" by (cases item)
  have step: "resolve_option pc a item h = h[a := resolve_item pc item (h ! a)]"
    by (cases v) (simp_all add: item resolve_option_def resolve_item_def)
  have len: "a < length (h[a := resolve_item pc item (h ! a)])"
    using Cons.prems by simp
  show ?case
    using Cons.prems by (simp add: step Cons.IH [OF len])
qed

lemma update_at_key:
  "k \<notin> fst ` set pre \<Longrightarrow> AList.update k v' (pre @ (k, v) # rest) = pre @ (k, v') # rest"
  by (induction pre) auto

lemma resolve_item_at_key:
  "k \<notin> fst ` set pre \<Longrightarrow>
   resolve_item pc (k, v) (pre @ (k, v) # rest) = pre @ (k, resolved_value pc v) # rest"
  by (cases v) (simp_all add: resolve_item_def resolved_value_def dict_set_def update_at_key)

lemma fold_resolve_item_gen:
  "distinct (map fst items) \<Longrightarrow> fst ` set pre \<inter> fst ` set items = {} \<Longrightarrow>
   fold (resolve_item pc) items (pre @ items) =
   pre @ map (\<lambda>(k, v). (k, resolved_value pc v)) items"
proof (induction items arbitrary: pre)
  case Nil
  then show ?case by simp
next
  case (Cons item items)
  obtain k v where item: "item = (k, v)" by (cases item)
  have notin: "k \<notin> fst ` set pre"
    using Cons.prems(2) by (auto simp: item)
  have dist: "distinct (map fst items)"
    using Cons.prems(1) by simp
  have disj: "fst ` set (pre @ [(k, resolved_value pc v)]) \<inter> fst ` set items = {}"
    using Cons.prems by (auto simp: item)
  have "fold (resolve_item pc) (item # items) (pre @ item # items) =
        fold (resolve_item pc) items ((pre @ [(k, resolved_value pc v)]) @ items)"
    by (simp add: item resolve_item_at_key [OF notin])
  also have "\<dots> = (pre @ [(k, resolved_value pc v)]) @ map (\<lambda>(k, v). (k, resolved_value pc v)) items"
    by (rule Cons.IH [OF dist disj])
  finally show ?case by (simp add: item)
qed

lemma fold_resolve_item:
  "distinct (map fst d) \<Longrightarrow>
   fold (resolve_item pc) d d = map (\<lambda>(k, v). (k, resolved_value pc v)) d"
  using fold_resolve_item_gen [of d "[]" pc] by simp

lemma dict_update_Nil: "dict_update d [] = d"
  by (simp add: dict_update_def)

lemma init_options_eq:
  assumes "config_ok tc (heap w)"
  shows "init_options tc kwargs w =
    (case tc_options tc of
       None \<Rightarrow> (length (heap w),
                 w\<lparr>heap := heap w @ [map (\<lambda>(k, v). (k, resolved_value (project_config w) v)) (dict_update [] kwargs)]\<rparr>)
     | Some r \<Rightarrow> (r,
                 w\<lparr>heap := (heap w)[r := map (\<lambda>(k, v). (k, resolved_value (project_config w) v)) (dict_update (heap w ! r) kwargs)]\<rparr>))"
proof (cases "tc_options tc")
  case None
  have d: "distinct (map fst (dict_update [] kwargs))"
    by (rule distinct_dict_update) simp
  show ?thesis
  proof (cases "kwargs = []")
    case True
    then show ?thesis
      by (simp add: None init_options_def alloc_def Let_def dict_update_Nil)
  next
    case False
    then show ?thesis
      by (simp add: None init_options_def alloc_def Let_def fold_resolve_option
          fold_resolve_item [OF d])
  qed
next
  case (Some r)
  from assms Some have r: "r < length (heap w)" and dr: "distinct (map fst (heap w ! r))"
    by (simp_all add: config_ok_def)
  have d: "distinct (map fst (dict_update (heap w ! r) kwargs))"
    by (rule distinct_dict_update [OF dr])
  show ?thesis
  proof (cases "kwargs = []")
    case True
    then show ?thesis
      using r by (simp add: Some init_options_def Let_def fold_resolve_option
          fold_resolve_item [OF dr] dict_update_Nil)
  next
    case False
    then show ?thesis
      using r by (simp add: Some init_options_def Let_def fold_resolve_option
          fold_resolve_item [OF d])
  qed
qed


section \<open>Construction without an org config\<close>

text \<open>
  C4. When the class requires an org (\<^verbatim>\<open>salesforce_task\<close>) and no org config is passed, the
  constructor raises \<^verbatim>\<open>TaskRequiresSalesforceOrg\<close> and the world is exactly as before: no
  dict was allocated for the options and no dict of the store was written, so the failure
  comes before any option resolution.
\<close>

theorem Task_init_without_org:
  assumes "salesforce_task cls"
  shows "Task_init cls tc None fl kwargs w =
           (Inl (Exn TaskRequiresSalesforceOrg
              ''This task requires a Saleforce org_config but none was passed to the Task constructor''),
            w)"
  using assms by (simp add: Task_init_def)

theorem Task_init_without_org_witness:
  "salesforce_task demo_class \<and>
   Task_init demo_class \<lparr>tc_options = Some 0\<rparr> None None [(''x'', VInt 2)] demo_world =
     (Inl (Exn TaskRequiresSalesforceOrg
        ''This task requires a Saleforce org_config but none was passed to the Task constructor''),
      demo_world)"
proof -
  have h: "salesforce_task demo_class"
    by (simp add: demo_class_def)
  show ?thesis
    using h Task_init_without_org [OF h] by simp
qed

section \<open>Validation of required options\<close>

lemma fold_missing_required:
  "fold (\<lambda>(name, config) acc.
           if is_required config \<and> \<not> dict_contains name opts then acc @ [name] else acc)
        defs acc =
   acc @ map fst (filter (\<lambda>(name, config). is_required config \<and> \<not> dict_contains name opts) defs)"
  by (induction defs arbitrary: acc) (auto split: prod.splits)

lemma missing_required_filter:
  "missing_required defs opts =
   map fst (filter (\<lambda>(name, config). is_required config \<and> \<not> dict_contains name opts) defs)"
  by (simp add: missing_required_def fold_missing_required)

lemma dict_contains_keys: "dict_contains k d \<longleftrightarrow> k \<in> fst ` set d"
  by (simp add: dict_contains_def map_of_eq_None_iff)

lemma sublist_str_join: "x \<in> set xs \<Longrightarrow> sublist x (str_join sep xs)"
proof (induction sep xs rule: str_join.induct)
  case (1 sep)
  then show ?case by simp
next
  case (2 sep x')
  then show ?case by simp
next
  case (3 sep x' y ys)
  show ?case
  proof (cases "x = x'")
    case True
    then show ?thesis by simp
  next
    case False
    with 3 have "sublist x (str_join sep (y # ys))" by simp
    then show ?thesis by (simp add: sublist_append)
  qed
qed

lemma sublist_between: "sublist x ys \<Longrightarrow> sublist x (ps @ ys @ ss)"
  by (auto simp: sublist_append)

lemma validate_options_None_iff:
  assumes "task_options cls = Some defs"
  shows "validate_options cls self w = None \<longleftrightarrow>
         missing_required defs (heap w ! options self) = []"
  by (simp add: validate_options_def get_task_options_def assms Let_def)

lemma missing_required_Nil_iff:
  "missing_required defs d = [] \<longleftrightarrow>
   (\<forall>(name, config) \<in> set defs. is_required config \<longrightarrow> name \<in> fst ` set d)"
proof -
  have "missing_required defs d = [] \<longleftrightarrow>
        (\<forall>p \<in> set defs. \<not> (is_required (snd p) \<and> \<not> dict_contains (fst p) d))"
    by (simp add: missing_required_filter filter_empty_conv case_prod_beta)
  also have "\<dots> \<longleftrightarrow> (\<forall>p \<in> set defs. is_required (snd p) \<longrightarrow> fst p \<in> fst ` set d)"
    by (simp add: dict_contains_keys)
  finally show ?thesis
    by (simp add: case_prod_beta)
qed

lemma missing_required_keys:
  assumes "fst ` set d' = fst ` set d"
  shows "missing_required defs d' = missing_required defs d"
proof -
  have "dict_contains name d' = dict_contains name d" for name
    by (simp only: dict_contains_keys assms)
  then show ?thesis
    by (simp add: missing_required_filter)
qed

text \<open>
  C3. When two or more required options are absent from the resolved options,
  \<^verbatim>\<open>_validate_options\<close> raises one \<^verbatim>\<open>TaskOptionsError\<close>. Its message is the class name,
  \<^verbatim>\<open>requires the options (\<close>, the missing names joined by a comma and a space, and
  \<^verbatim>\<open>) and no values were provided\<close>; the missing names are the declared names that are
  required and absent, in the order of declaration, and each of them occurs in the message.
\<close>

theorem validate_options_aggregates:
  assumes "task_options cls = Some defs"
    and "2 \<le> length (filter (\<lambda>(name, config).
               is_required config \<and> \<not> dict_contains name (heap w ! options self)) defs)"
  shows "let missing = map fst (filter (\<lambda>(name, config).
               is_required config \<and> \<not> dict_contains name (heap w ! options self)) defs);
             message = class_name cls @ '' requires the options ('' @ str_join '', '' missing @
                       '') and no values were provided''
         in validate_options cls self w = Some (Exn TaskOptionsError message) \<and>
            (\<forall>name \<in> set missing. sublist name message)"
proof -
  define missing where "missing = map fst (filter (\<lambda>(name, config).
               is_required config \<and> \<not> dict_contains name (heap w ! options self)) defs)"
  define message where "message = class_name cls @ '' requires the options ('' @
      str_join '', '' missing @ '') and no values were provided''"
  have ne: "missing \<noteq> []"
    using assms(2) by (auto simp: missing_def)
  have mr: "missing_required defs (heap w ! options self) = missing"
    by (simp add: missing_required_filter missing_def)
  have raised: "validate_options cls self w = Some (Exn TaskOptionsError message)"
    using ne by (simp add: validate_options_def get_task_options_def assms(1) mr message_def)
  have named: "sublist name message" if "name \<in> set missing" for name
  proof -
    have "sublist name (str_join '', '' missing)"
      using that by (rule sublist_str_join)
    then have "sublist name ((class_name cls @ '' requires the options ('') @
        str_join '', '' missing @ '') and no values were provided'')"
      by (rule sublist_between)
    then show ?thesis
      unfolding message_def append_assoc .
  qed
  show ?thesis
    using raised named unfolding Let_def missing_def [symmetric] message_def [symmetric]
    by blast
qed

theorem validate_options_aggregates_witness:
  "task_options demo_class = Some demo_options \<and>
   2 \<le> length (filter (\<lambda>(name, config).
          is_required config \<and> \<not> dict_contains name (heap demo_world ! options demo_task))
        demo_options) \<and>
   validate_options demo_class demo_task demo_world =
     Some (Exn TaskOptionsError ''Deploy requires the options (a, b) and no values were provided'')"
proof -
  have h1: "task_options demo_class = Some demo_options"
    by (simp add: demo_class_def)
  have h2: "2 \<le> length (filter (\<lambda>(name, config).
          is_required config \<and> \<not> dict_contains name (heap demo_world ! options demo_task))
        demo_options)"
    by (simp add: demo_options_def demo_world_def demo_task_def is_required_def dict_get_def
        dict_contains_def)
  show ?thesis
    using h1 h2 validate_options_aggregates [OF h1 h2]
    by (simp add: demo_options_def demo_world_def demo_task_def is_required_def dict_get_def
        dict_contains_def demo_class_def Let_def)
qed

text \<open>
  C10. Validation looks at key presence only. It succeeds exactly when every declared option
  whose config has \<^verbatim>\<open>required\<close> equal to \<^verbatim>\<open>True\<close> is a key of the resolved options, and its
  outcome is the same for any two option dicts with the same keys, whatever the values are. In
  the example the required option \<open>z\<close> was resolved to \<^verbatim>\<open>None\<close> by the lookup of a missing
  attribute, and validation passes.
\<close>

theorem validate_options_key_presence:
  assumes "task_options cls = Some defs"
  shows "(validate_options cls self w = None \<longleftrightarrow>
            (\<forall>(name, config) \<in> set defs.
               is_required config \<longrightarrow> name \<in> fst ` set (heap w ! options self))) \<and>
         (\<forall>w'. fst ` set (heap w' ! options self) = fst ` set (heap w ! options self) \<longrightarrow>
               validate_options cls self w' = validate_options cls self w)"
proof (rule conjI)
  show "validate_options cls self w = None \<longleftrightarrow>
            (\<forall>(name, config) \<in> set defs.
               is_required config \<longrightarrow> name \<in> fst ` set (heap w ! options self))"
    by (simp only: validate_options_None_iff [OF assms] missing_required_Nil_iff)
next
  show "\<forall>w'. fst ` set (heap w' ! options self) = fst ` set (heap w ! options self) \<longrightarrow>
               validate_options cls self w' = validate_options cls self w"
  proof (intro allI impI)
    fix w' :: world
    assume "fst ` set (heap w' ! options self) = fst ` set (heap w ! options self)"
    then have "missing_required defs (heap w' ! options self) =
               missing_required defs (heap w ! options self)"
      by (rule missing_required_keys)
    then show "validate_options cls self w' = validate_options cls self w"
      by (simp add: validate_options_def get_task_options_def assms Let_def)
  qed
qed

theorem validate_options_key_presence_witness:
  "task_options z_class = Some [(''z'', [(''required'', VBool True)])] \<and>
   dict_get (heap (snd (init_options \<lparr>tc_options = Some 0\<rparr> [] demo_world)) ! 0) ''z'' = Some VNone \<and>
   validate_options z_class demo_task (snd (init_options \<lparr>tc_options = Some 0\<rparr> [] demo_world)) = None"
proof -
  have h: "task_options z_class = Some [(''z'', [(''required'', VBool True)])]"
    by (simp add: z_class_def)
  have cell: "heap (snd (init_options \<lparr>tc_options = Some 0\<rparr> [] demo_world)) ! 0 =
      [(''x'', VInt 1), (''y'', VInt 42), (''z'', VNone)]"
    by (simp add: init_options_def demo_world_def demo_project_def resolve_option_def
        startswith_def dict_set_def getattr_default_def Let_def)
  show ?thesis
    using h validate_options_key_presence [OF h, of demo_task "snd (init_options \<lparr>tc_options = Some 0\<rparr> [] demo_world)"]
    by (simp add: cell dict_get_def demo_task_def is_required_def)
qed

section \<open>Option resolution\<close>

lemma map_of_rev_distinct: "distinct (map fst xs) \<Longrightarrow> map_of (rev xs) = map_of xs"
proof (induction xs)
  case Nil
  then show ?case by simp
next
  case (Cons p xs)
  obtain k v where p: "p = (k, v)" by (cases p)
  from Cons.prems have k: "map_of xs k = None"
    by (simp add: p map_of_eq_None_iff)
  from Cons have ih: "map_of (rev xs) = map_of xs"
    by simp
  show ?case
  proof (rule ext)
    fix x
    show "map_of (rev (p # xs)) x = map_of (p # xs) x"
      using k by (cases "x = k") (simp_all add: p ih map_add_def split: option.splits)
  qed
qed

lemma map_of_resolved:
  "map_of (map (\<lambda>(k, v). (k, resolved_value pc v)) d) k = map_option (resolved_value pc) (map_of d k)"
  by (induction d) auto

lemma resolved_value_lookup:
  "resolved_value pc (VStr (''$project_config.'' @ attr)) = getattr_default pc attr VNone"
proof -
  have p: "prefix ''$project_config.'' (''$project_config.'' @ attr)"
    by (rule prefixI) simp
  have "str_replace1 ''$project_config.'' [] (''$project_config.'' @ attr) =
        drop (length ''$project_config.'') (''$project_config.'' @ attr)"
    using p by (rule str_replace1_prefix)
  then have r: "str_replace1 ''$project_config.'' [] (''$project_config.'' @ attr) = attr"
    by simp
  show ?thesis
    unfolding resolved_value_def startswith_def using p r by simp
qed

lemma init_options_cell:
  assumes "config_ok tc (heap w)" and "init_options tc kwargs w = (a, w')"
  shows "heap w' ! a =
         map (\<lambda>(k, v). (k, resolved_value (project_config w) v))
             (dict_update (config_options tc (heap w)) kwargs)"
proof (cases "tc_options tc")
  case None
  with assms show ?thesis
    by (auto simp: init_options_eq config_options_def nth_append)
next
  case (Some r)
  with assms have "r < length (heap w)"
    by (simp add: config_ok_def)
  with assms Some show ?thesis
    by (auto simp: init_options_eq config_options_def)
qed

lemma keys_dict_update: "fst ` set (dict_update d other) = fst ` set d \<union> fst ` set other"
proof (induction other arbitrary: d)
  case Nil
  then show ?case by (simp add: dict_update_def)
next
  case (Cons p ps)
  obtain k v where p: "p = (k, v)" by (cases p)
  have "dict_update d (p # ps) = dict_update (dict_set d k v) ps"
    by (simp add: dict_update_def p)
  then show ?case
    by (auto simp: Cons.IH dict_set_def dom_update p)
qed

lemma keys_resolved: "fst ` (\<lambda>(k, v). (k, g v)) ` S = fst ` S"
  by force

lemma resolved_value_cases:
  "resolved_value pc v =
     (case v of
        VStr s \<Rightarrow> if startswith s ''$project_config.''
                  then getattr_default pc (drop 16 s) VNone else v
      | _ \<Rightarrow> v)"
proof (cases v)
  case (VStr s)
  have len: "length ''$project_config.'' = 16"
    by simp
  show ?thesis
  proof (cases "prefix ''$project_config.'' s")
    case True
    then have "str_replace1 ''$project_config.'' [] s = drop (length ''$project_config.'') s"
      by (rule str_replace1_prefix)
    then have "str_replace1 ''$project_config.'' [] s = drop 16 s"
      unfolding len .
    then show ?thesis
      using True by (simp add: VStr resolved_value_def startswith_def)
  next
    case False
    then show ?thesis
      by (simp add: VStr resolved_value_def startswith_def)
  qed
qed (simp_all add: resolved_value_def)

lemma Task_init_eq:
  assumes "\<not> (salesforce_task cls \<and> oc = None)" and "init_options tc kwargs w = (a, w1)"
  shows "Task_init cls tc oc fl kwargs w =
    (case validate_options cls
            \<lparr>task_config = tc, org_config = oc, return_values = [], result = VNone,
             flow = fl, options = a\<rparr> w1 of
       Some e \<Rightarrow> (Inl e, w1)
     | None \<Rightarrow> (Inr \<lparr>task_config = tc, org_config = oc, return_values = [], result = VNone,
                      flow = fl, options = a\<rparr>, w1))"
proof -
  from assms(1) have c: "(salesforce_task cls \<and> oc = None) = False"
    by simp
  show ?thesis
    unfolding Task_init_def c
    by (simp add: assms(2) init_mixins_def init_logger_def init_task_def
        update_credentials_def Let_def split: option.split)
qed

lemma demo_init_options:
  "init_options \<lparr>tc_options = Some 0\<rparr> [(''x'', VInt 2)] demo_world =
     (0, demo_world\<lparr>heap := [[(''x'', VInt 2), (''y'', VInt 42), (''z'', VNone)]]\<rparr>)"
  by (simp add: init_options_def demo_world_def demo_project_def resolve_option_def
      startswith_def dict_set_def dict_update_def getattr_default_def Let_def)

lemma path_init_options:
  "init_options \<lparr>tc_options = Some 0\<rparr> [(''path'', VStr ''/tmp'')] empty_config_world =
     (0, empty_config_world\<lparr>heap := [[(''path'', VStr ''/tmp'')]]\<rparr>)"
  by (simp add: init_options_def empty_config_world_def resolve_option_def
      startswith_def dict_set_def dict_update_def getattr_default_def Let_def)

text \<open>
  C1, as the code has it. An option whose value, after the keyword arguments were merged in, is
  the string \<^verbatim>\<open>$project_config.\<close> followed by an attribute name is resolved to that attribute
  of the project config when the attribute exists, and to \<^verbatim>\<open>None\<close> when it does not: the
  lookup is \<^verbatim>\<open>getattr(self.project_config, attr, None)\<close>. \<^const>\<open>init_options\<close> has no
  failing outcome.
\<close>

theorem init_options_resolves_references:
  assumes "config_ok tc (heap w)"
    and "init_options tc kwargs w = (a, w')"
    and "dict_get (dict_update (config_options tc (heap w)) kwargs) option =
           Some (VStr (''$project_config.'' @ attr))"
  shows "dict_get (heap w' ! a) option =
           Some (case attrs (project_config w) attr of Some v \<Rightarrow> v | None \<Rightarrow> VNone)"
proof -
  have "dict_get (heap w' ! a) option =
        map_option (resolved_value (project_config w))
          (dict_get (dict_update (config_options tc (heap w)) kwargs) option)"
    by (simp add: init_options_cell [OF assms(1,2)] dict_get_def map_of_resolved)
  also have "\<dots> = Some (getattr_default (project_config w) attr VNone)"
    by (simp only: assms(3) option.map resolved_value_lookup)
  finally show ?thesis
    by (simp add: getattr_default_def)
qed

theorem init_options_resolves_references_witness:
  "config_ok \<lparr>tc_options = Some 0\<rparr> (heap demo_world) \<and>
   dict_get (dict_update (config_options \<lparr>tc_options = Some 0\<rparr> (heap demo_world)) [(''x'', VInt 2)]) ''y'' =
     Some (VStr (''$project_config.'' @ ''foo'')) \<and>
   dict_get (dict_update (config_options \<lparr>tc_options = Some 0\<rparr> (heap demo_world)) [(''x'', VInt 2)]) ''z'' =
     Some (VStr (''$project_config.'' @ ''missing'')) \<and>
   dict_get (heap (snd (init_options \<lparr>tc_options = Some 0\<rparr> [(''x'', VInt 2)] demo_world)) !
             fst (init_options \<lparr>tc_options = Some 0\<rparr> [(''x'', VInt 2)] demo_world)) ''y'' =
     Some (VInt 42) \<and>
   dict_get (heap (snd (init_options \<lparr>tc_options = Some 0\<rparr> [(''x'', VInt 2)] demo_world)) !
             fst (init_options \<lparr>tc_options = Some 0\<rparr> [(''x'', VInt 2)] demo_world)) ''z'' =
     Some VNone"
proof -
  have ok: "config_ok \<lparr>tc_options = Some 0\<rparr> (heap demo_world)"
    by (simp add: config_ok_def demo_world_def)
  have y: "dict_get (dict_update (config_options \<lparr>tc_options = Some 0\<rparr> (heap demo_world)) [(''x'', VInt 2)]) ''y'' =
     Some (VStr (''$project_config.'' @ ''foo''))"
    by (simp add: config_options_def demo_world_def dict_update_def dict_set_def dict_get_def)
  have z: "dict_get (dict_update (config_options \<lparr>tc_options = Some 0\<rparr> (heap demo_world)) [(''x'', VInt 2)]) ''z'' =
     Some (VStr (''$project_config.'' @ ''missing''))"
    by (simp add: config_options_def demo_world_def dict_update_def dict_set_def dict_get_def)
  show ?thesis
    unfolding demo_init_options fst_conv snd_conv
    using ok y z
      init_options_resolves_references [OF ok demo_init_options y]
      init_options_resolves_references [OF ok demo_init_options z]
    by (simp add: demo_world_def demo_project_def)
qed

text \<open>
  The sentence of C1 about a missing attribute does not hold: in the example the option \<open>z\<close> is
  \<^verbatim>\<open>$project_config.missing\<close>, the project config has no attribute \<open>missing\<close>, and after
  resolution the option is no longer that string (it is \<^verbatim>\<open>None\<close>).
\<close>

theorem missing_attribute_counterexample:
  "dict_get (heap demo_world ! 0) ''z'' = Some (VStr ''$project_config.missing'') \<and>
   attrs (project_config demo_world) ''missing'' = None \<and>
   dict_get (heap (snd (init_options \<lparr>tc_options = Some 0\<rparr> [] demo_world)) !
             fst (init_options \<lparr>tc_options = Some 0\<rparr> [] demo_world)) ''z'' \<noteq>
     Some (VStr ''$project_config.missing'')"
  by (simp add: init_options_def demo_world_def demo_project_def resolve_option_def
      startswith_def dict_set_def dict_get_def getattr_default_def Let_def)

section \<open>Precedence of the keyword arguments\<close>

text \<open>
  C5, as the code has it. Whatever the config options hold for a name, an option that the
  keyword arguments supply has the value of the keyword argument once the keyword arguments
  are merged in, and ends up with that value resolved like any other value: a
  \<^verbatim>\<open>$project_config.\<close> reference is replaced by what the lookup gives, anything else is
  kept as it is. When every required option is a key of the keyword arguments or of the
  config options, construction succeeds. The example is the class with \<open>path\<close> required,
  config options \<^verbatim>\<open>{}\<close> and the keyword argument \<^verbatim>\<open>path='/tmp'\<close>: the instance is built and
  its options are \<^verbatim>\<open>{'path': '/tmp'}\<close>.
\<close>

theorem overrides_take_precedence:
  assumes "config_ok tc (heap w)"
    and "distinct (map fst kwargs)"
    and "init_options tc kwargs w = (a, w1)"
  shows "(\<forall>option v. dict_get kwargs option = Some v \<longrightarrow>
            dict_get (dict_update (config_options tc (heap w)) kwargs) option = Some v \<and>
            dict_get (heap w1 ! a) option =
              Some (case v of
                      VStr s \<Rightarrow> if startswith s ''$project_config.''
                                then getattr_default (project_config w) (drop 16 s) VNone else v
                    | _ \<Rightarrow> v)) \<and>
         (\<forall>defs. \<not> (salesforce_task cls \<and> oc = None) \<longrightarrow> task_options cls = Some defs \<longrightarrow>
            (\<forall>(name, config) \<in> set defs. is_required config \<longrightarrow>
               name \<in> fst ` set kwargs \<union> fst ` set (config_options tc (heap w))) \<longrightarrow>
            Task_init cls tc oc fl kwargs w =
              (Inr \<lparr>task_config = tc, org_config = oc, return_values = [], result = VNone,
                    flow = fl, options = a\<rparr>, w1))"
proof (intro conjI allI impI)
  fix option v
  assume kw: "dict_get kwargs option = Some v"
  show merged: "dict_get (dict_update (config_options tc (heap w)) kwargs) option = Some v"
    using kw by (simp add: map_of_dict_update map_of_rev_distinct [OF assms(2)] dict_get_def)
  have "dict_get (heap w1 ! a) option =
        map_option (resolved_value (project_config w))
          (dict_get (dict_update (config_options tc (heap w)) kwargs) option)"
    by (simp add: init_options_cell [OF assms(1,3)] dict_get_def map_of_resolved)
  then have "dict_get (heap w1 ! a) option = Some (resolved_value (project_config w) v)"
    by (simp only: merged option.map)
  then show "dict_get (heap w1 ! a) option =
              Some (case v of
                      VStr s \<Rightarrow> if startswith s ''$project_config.''
                                then getattr_default (project_config w) (drop 16 s) VNone else v
                    | _ \<Rightarrow> v)"
    by (simp only: resolved_value_cases)
next
  fix defs
  assume org: "\<not> (salesforce_task cls \<and> oc = None)"
    and defs: "task_options cls = Some defs"
    and req: "\<forall>(name, config) \<in> set defs. is_required config \<longrightarrow>
               name \<in> fst ` set kwargs \<union> fst ` set (config_options tc (heap w))"
  let ?self = "\<lparr>task_config = tc, org_config = oc, return_values = [], result = VNone,
                    flow = fl, options = a\<rparr>"
  have keys: "fst ` set (heap w1 ! a) = fst ` set (config_options tc (heap w)) \<union> fst ` set kwargs"
    by (simp add: init_options_cell [OF assms(1,3)] keys_resolved keys_dict_update)
  have "missing_required defs (heap w1 ! options ?self) = []"
    unfolding missing_required_Nil_iff using req keys by auto
  then have "validate_options cls ?self w1 = None"
    by (simp only: validate_options_None_iff [OF defs])
  then show "Task_init cls tc oc fl kwargs w = (Inr ?self, w1)"
    by (simp add: Task_init_eq [OF org assms(3)])
qed

theorem overrides_take_precedence_witness:
  "config_ok \<lparr>tc_options = Some 0\<rparr> (heap demo_world) \<and>
   dict_get (heap demo_world ! 0) ''x'' = Some (VInt 1) \<and>
   dict_get [(''x'', VInt 2)] ''x'' = Some (VInt 2) \<and>
   dict_get (heap (snd (init_options \<lparr>tc_options = Some 0\<rparr> [(''x'', VInt 2)] demo_world)) ! 0) ''x'' =
     Some (VInt 2) \<and>
   config_options \<lparr>tc_options = Some 0\<rparr> (heap empty_config_world) = [] \<and>
   Task_init path_class \<lparr>tc_options = Some 0\<rparr> None None [(''path'', VStr ''/tmp'')]
       empty_config_world =
     (Inr \<lparr>task_config = \<lparr>tc_options = Some 0\<rparr>, org_config = None, return_values = [],
           result = VNone, flow = None, options = 0\<rparr>,
      empty_config_world\<lparr>heap := [[(''path'', VStr ''/tmp'')]]\<rparr>)"
proof -
  have ok1: "config_ok \<lparr>tc_options = Some 0\<rparr> (heap demo_world)"
    by (simp add: config_ok_def demo_world_def)
  have ok2: "config_ok \<lparr>tc_options = Some 0\<rparr> (heap empty_config_world)"
    by (simp add: config_ok_def empty_config_world_def)
  have d1: "distinct (map fst [(''x'', VInt 2)])" and d2: "distinct (map fst [(''path'', VStr ''/tmp'')])"
    by simp_all
  have x: "dict_get (heap (snd (init_options \<lparr>tc_options = Some 0\<rparr> [(''x'', VInt 2)] demo_world)) ! 0) ''x'' =
     Some (VInt 2)"
    using overrides_take_precedence [OF ok1 d1 demo_init_options, of Task_class None None]
    by (auto simp: dict_get_def demo_init_options)
  have p: "Task_init path_class \<lparr>tc_options = Some 0\<rparr> None None [(''path'', VStr ''/tmp'')]
       empty_config_world =
     (Inr \<lparr>task_config = \<lparr>tc_options = Some 0\<rparr>, org_config = None, return_values = [],
           result = VNone, flow = None, options = 0\<rparr>,
      empty_config_world\<lparr>heap := [[(''path'', VStr ''/tmp'')]]\<rparr>)"
    using overrides_take_precedence [OF ok2 d2 path_init_options, of path_class None None]
    by (auto simp: path_class_def is_required_def dict_get_def)
  show ?thesis
    using ok1 x p
    by (simp add: dict_get_def demo_world_def config_options_def empty_config_world_def)
qed

text \<open>
  C5 as stated does not hold for every keyword argument: the resolved value is not always the
  value of the keyword argument. In the example the config options have \<open>x = 1\<close> and the
  keyword argument is \<^verbatim>\<open>x='$project_config.missing'\<close>; after resolution the option \<open>x\<close> is
  not that string (the lookup of the missing attribute stored \<^verbatim>\<open>None\<close>).
\<close>

theorem override_reference_counterexample:
  "dict_get (heap demo_world ! 0) ''x'' = Some (VInt 1) \<and>
   dict_get [(''x'', VStr ''$project_config.missing'')] ''x'' =
     Some (VStr ''$project_config.missing'') \<and>
   dict_get (heap (snd (init_options \<lparr>tc_options = Some 0\<rparr>
                          [(''x'', VStr ''$project_config.missing'')] demo_world)) !
             fst (init_options \<lparr>tc_options = Some 0\<rparr>
                    [(''x'', VStr ''$project_config.missing'')] demo_world)) ''x'' =
     Some VNone \<and>
   dict_get (heap (snd (init_options \<lparr>tc_options = Some 0\<rparr>
                          [(''x'', VStr ''$project_config.missing'')] demo_world)) !
             fst (init_options \<lparr>tc_options = Some 0\<rparr>
                    [(''x'', VStr ''$project_config.missing'')] demo_world)) ''x'' \<noteq>
     Some (VStr ''$project_config.missing'')"
  by (simp add: init_options_def demo_world_def demo_project_def resolve_option_def
      startswith_def dict_set_def dict_update_def dict_get_def getattr_default_def Let_def)

section \<open>What construction writes\<close>

text \<open>
  C7, as the code has it. \<^verbatim>\<open>self.options = self.task_config.options\<close> binds the instance's
  options to the dict of the task config itself. Once construction is past the check for an
  org config, it leaves the project config and the log as they were and writes exactly one
  dict of the store. When the task config has no options dict, that dict is a new one and
  every dict that existed before is untouched. When the task config has an options dict,
  that very dict is written: afterwards it holds the config options with the keyword arguments
  merged in and the references resolved, and the instance's options are the same dict object.
\<close>

theorem Task_init_shares_config_options:
  assumes "config_ok tc (heap w)"
    and "\<not> (salesforce_task cls \<and> oc = None)"
    and "Task_init cls tc oc fl kwargs w = (outcome, w')"
  shows "project_config w' = project_config w \<and> logger w' = logger w \<and>
         (case tc_options tc of
            None \<Rightarrow>
              heap w' = heap w @
                [map (\<lambda>(k, v). (k, resolved_value (project_config w) v)) (dict_update [] kwargs)]
          | Some r \<Rightarrow>
              heap w' = (heap w)
                [r := map (\<lambda>(k, v). (k, resolved_value (project_config w) v))
                        (dict_update (heap w ! r) kwargs)]) \<and>
         (\<forall>self. outcome = Inr self \<longrightarrow>
            task_config self = tc \<and>
            options self = (case tc_options tc of None \<Rightarrow> length (heap w) | Some r \<Rightarrow> r))"
proof -
  obtain a w1 where io: "init_options tc kwargs w = (a, w1)"
    by (cases "init_options tc kwargs w")
  let ?self = "\<lparr>task_config = tc, org_config = oc, return_values = [], result = VNone,
                flow = fl, options = a\<rparr>"
  from assms(3) have w': "w' = w1" and out: "outcome = Inr self \<Longrightarrow> self = ?self" for self
    by (auto simp: Task_init_eq [OF assms(2) io] split: option.splits)
  show ?thesis
  proof (cases "tc_options tc")
    case None
    with io have "a = length (heap w)"
      and "w1 = w\<lparr>heap := heap w @
        [map (\<lambda>(k, v). (k, resolved_value (project_config w) v)) (dict_update [] kwargs)]\<rparr>"
      by (simp_all add: init_options_eq [OF assms(1)])
    then show ?thesis
      using out by (auto simp: None w')
  next
    case (Some r)
    with io have "a = r"
      and "w1 = w\<lparr>heap := (heap w)
        [r := map (\<lambda>(k, v). (k, resolved_value (project_config w) v))
                (dict_update (heap w ! r) kwargs)]\<rparr>"
      by (auto simp: init_options_eq [OF assms(1)])
    then show ?thesis
      using out by (auto simp: Some w')
  qed
qed

lemma demo_Task_init:
  "Task_init Task_class \<lparr>tc_options = Some 0\<rparr> None None [(''x'', VInt 2)] demo_world =
    (Inr \<lparr>task_config = \<lparr>tc_options = Some 0\<rparr>, org_config = None, return_values = [],
          result = VNone, flow = None, options = 0\<rparr>,
     demo_world\<lparr>heap := [[(''x'', VInt 2), (''y'', VInt 42), (''z'', VNone)]]\<rparr>)"
proof -
  have org: "\<not> (salesforce_task Task_class \<and> (None :: org_config option) = None)"
    by (simp add: Task_class_def)
  show ?thesis
    unfolding Task_init_eq [OF org demo_init_options]
    by (simp add: validate_options_def get_task_options_def Task_class_def missing_required_def)
qed

theorem Task_init_shares_config_options_witness:
  "config_ok \<lparr>tc_options = Some 0\<rparr> (heap demo_world) \<and>
   \<not> (salesforce_task Task_class \<and> (None :: org_config option) = None) \<and>
   heap (snd (Task_init Task_class \<lparr>tc_options = Some 0\<rparr> None None [(''x'', VInt 2)] demo_world)) =
     (heap demo_world)[0 := [(''x'', VInt 2), (''y'', VInt 42), (''z'', VNone)]] \<and>
   fst (Task_init Task_class \<lparr>tc_options = Some 0\<rparr> None None [(''x'', VInt 2)] demo_world) =
     Inr \<lparr>task_config = \<lparr>tc_options = Some 0\<rparr>, org_config = None, return_values = [],
          result = VNone, flow = None, options = 0\<rparr>"
proof -
  have ok: "config_ok \<lparr>tc_options = Some 0\<rparr> (heap demo_world)"
    by (simp add: config_ok_def demo_world_def)
  have org: "\<not> (salesforce_task Task_class \<and> (None :: org_config option) = None)"
    by (simp add: Task_class_def)
  have cell: "map (\<lambda>(k, v). (k, resolved_value (project_config demo_world) v))
                (dict_update (heap demo_world ! 0) [(''x'', VInt 2)]) =
              [(''x'', VInt 2), (''y'', VInt 42), (''z'', VNone)]"
    by (simp add: demo_world_def demo_project_def dict_update_def dict_set_def
        resolved_value_def startswith_def getattr_default_def)
  have "heap (demo_world\<lparr>heap := [[(''x'', VInt 2), (''y'', VInt 42), (''z'', VNone)]]\<rparr>) =
     (heap demo_world)[0 := [(''x'', VInt 2), (''y'', VInt 42), (''z'', VNone)]]"
    using Task_init_shares_config_options [OF ok org demo_Task_init]
    by (simp add: cell)
  then show ?thesis
    using ok org by (simp add: demo_Task_init)
qed

text \<open>
  The task config is therefore not immutable once passed in: constructing a \<^verbatim>\<open>Task\<close> from the
  config options of the example world with the keyword argument \<open>x = 2\<close> changes the dict the
  caller's task config refers to.
\<close>

theorem config_options_mutated_counterexample:
  "heap (snd (Task_init Task_class \<lparr>tc_options = Some 0\<rparr> None None [(''x'', VInt 2)] demo_world)) ! 0
     \<noteq> heap demo_world ! 0"
  by (simp add: demo_Task_init) (simp add: demo_world_def)

section \<open>Calling a task\<close>

text \<open>
  An instance built by the constructor has an org config whenever its class requires one, so
  \<^verbatim>\<open>_log_begin\<close> returns and the action is run.
\<close>

lemma log_begin_returns:
  assumes "salesforce_task cls \<longrightarrow> org_config self \<noteq> None"
  shows "fst (log_begin cls self w) = None"
  using assms by (auto simp: log_begin_def Let_def split: option.splits)

lemma Task_init_org_config:
  assumes "Task_init cls tc oc fl kwargs w = (Inr self, w')"
  shows "salesforce_task cls \<longrightarrow> org_config self \<noteq> None"
proof (cases "salesforce_task cls \<and> oc = None")
  case True
  with assms show ?thesis
    by (simp add: Task_init_def)
next
  case False
  obtain a w1 where io: "init_options tc kwargs w = (a, w1)"
    by (cases "init_options tc kwargs w")
  from assms False show ?thesis
    by (auto simp: Task_init_eq [OF False io] split: option.splits)
qed

lemma Task_call_run:
  assumes "salesforce_task cls \<longrightarrow> org_config self \<noteq> None"
  shows "Task_call cls self w =
    (case run_task cls self (snd (log_begin cls self w)) of
       (Inl e, self2, w2) \<Rightarrow> except_Exception cls self2 e w2
     | (Inr r, self2, w2) \<Rightarrow> (Inr (return_values self2), self2\<lparr>result := r\<rparr>, w2))"
proof -
  obtain w1 where lb: "log_begin cls self w = (None, w1)"
    using log_begin_returns [OF assms, of w] by (cases "log_begin cls self w") simp
  show ?thesis
    by (simp add: Task_call_def lb Let_def split: prod.splits sum.splits)
qed

lemma log_begin_interceptor:
  "log_begin (cls\<lparr>process_exception := interceptor\<rparr>) self w = log_begin cls self w"
  by (simp add: log_begin_def)

lemma demo_log_begin:
  "log_begin (action_class action interceptor) demo_task demo_world =
     (None, demo_world\<lparr>logger :=
        [''Beginning task: Job'',
         ''       As user: user@example.com'',
         ''        In org: 00D000000000001'',
         []]\<rparr>)"
  by (simp add: log_begin_def action_class_def demo_task_def demo_org_def logger_info_def
      rjust15_def demo_world_def Let_def eval_nat_numeral)

lemma demo_invariant:
  "salesforce_task (action_class action interceptor) \<longrightarrow> org_config demo_task \<noteq> None"
  by (simp add: demo_task_def)

text \<open>
  C6. When the action returns, the call returns the \<^verbatim>\<open>return_values\<close> mapping as the
  action left it and stores the action's return value in \<^verbatim>\<open>result\<close>; the world is the one
  the action left. The interceptor is not invoked: the outcome is the same whatever the
  interceptor of the class is. In the example the interceptor would raise if it were called.
\<close>

theorem Task_call_success:
  assumes "salesforce_task cls \<longrightarrow> org_config self \<noteq> None"
    and "run_task cls self (snd (log_begin cls self w)) = (Inr r, self2, w2)"
  shows "Task_call cls self w = (Inr (return_values self2), self2\<lparr>result := r\<rparr>, w2) \<and>
         (\<forall>interceptor.
            Task_call (cls\<lparr>process_exception := interceptor\<rparr>) self w = Task_call cls self w)"
proof (intro conjI allI)
  show call: "Task_call cls self w = (Inr (return_values self2), self2\<lparr>result := r\<rparr>, w2)"
    by (simp add: Task_call_run [OF assms(1)] assms(2))
  fix interceptor
  have inv: "salesforce_task (cls\<lparr>process_exception := interceptor\<rparr>) \<longrightarrow> org_config self \<noteq> None"
    using assms(1) by simp
  show "Task_call (cls\<lparr>process_exception := interceptor\<rparr>) self w = Task_call cls self w"
    by (simp add: call Task_call_run [OF inv] log_begin_interceptor assms(2))
qed

theorem Task_call_success_witness:
  "salesforce_task (action_class returning_action failing_interceptor) \<and>
   org_config demo_task \<noteq> None \<and>
   Task_call (action_class returning_action failing_interceptor) demo_task demo_world =
     (Inr [(''id'', VInt 7)],
      demo_task\<lparr>return_values := [(''id'', VInt 7)], result := VInt 0\<rparr>,
      snd (log_begin (action_class returning_action failing_interceptor) demo_task demo_world))"
proof -
  have run: "run_task (action_class returning_action failing_interceptor) demo_task
      (snd (log_begin (action_class returning_action failing_interceptor) demo_task demo_world)) =
    (Inr (VInt 0), demo_task\<lparr>return_values := [(''id'', VInt 7)]\<rparr>,
     snd (log_begin (action_class returning_action failing_interceptor) demo_task demo_world))"
    by (simp add: action_class_def returning_action_def dict_set_def demo_task_def)
  show ?thesis
    using Task_call_success [OF demo_invariant run]
    by (simp add: demo_task_def) (simp add: action_class_def)
qed

text \<open>
  C2, as the code has it. When the action raises \<open>e\<close> and \<open>e\<close> is an \<^verbatim>\<open>Exception\<close>, the call
  applies the interceptor once, to \<open>e\<close> and the state the action left; if the interceptor
  returns, the call raises \<open>e\<close> itself, and if the interceptor raises, the call raises what the
  interceptor raised. When \<open>e\<close> is not an \<^verbatim>\<open>Exception\<close> (\<^verbatim>\<open>KeyboardInterrupt\<close>,
  \<^verbatim>\<open>SystemExit\<close>) the clause \<^verbatim>\<open>except Exception\<close> does not match: the call raises \<open>e\<close> and
  the interceptor is not applied. In every case the call ends by raising.
\<close>

theorem Task_call_failure:
  assumes "salesforce_task cls \<longrightarrow> org_config self \<noteq> None"
    and "run_task cls self (snd (log_begin cls self w)) = (Inl e, self2, w2)"
  shows "(is_Exception e \<longrightarrow>
            (case process_exception cls self2 e w2 of
               (None, w3) \<Rightarrow> Task_call cls self w = (Inl e, self2, w3)
             | (Some e', w3) \<Rightarrow> Task_call cls self w = (Inl e', self2, w3))) \<and>
         (\<not> is_Exception e \<longrightarrow> Task_call cls self w = (Inl e, self2, w2)) \<and>
         (\<exists>raised. fst (Task_call cls self w) = Inl raised)"
  by (auto simp: Task_call_run [OF assms(1)] assms(2) except_Exception_def
      split: prod.splits option.splits)

theorem Task_call_failure_witness:
  "salesforce_task (action_class raising_action Task_process_exception) \<and>
   org_config demo_task \<noteq> None \<and>
   is_Exception (Exn (UserException ''ValueError'') ''boom'') \<and>
   Task_call (action_class raising_action Task_process_exception) demo_task demo_world =
     (Inl (Exn (UserException ''ValueError'') ''boom''), demo_task,
      snd (log_begin (action_class raising_action Task_process_exception) demo_task demo_world)) \<and>
   \<not> is_Exception (Exn (NonException ''KeyboardInterrupt'') []) \<and>
   Task_call (action_class interrupted_action failing_interceptor) demo_task demo_world =
     (Inl (Exn (NonException ''KeyboardInterrupt'') []), demo_task,
      snd (log_begin (action_class interrupted_action failing_interceptor) demo_task demo_world))"
proof -
  have run1: "run_task (action_class raising_action Task_process_exception) demo_task
      (snd (log_begin (action_class raising_action Task_process_exception) demo_task demo_world)) =
    (Inl (Exn (UserException ''ValueError'') ''boom''), demo_task,
     snd (log_begin (action_class raising_action Task_process_exception) demo_task demo_world))"
    by (simp add: action_class_def raising_action_def)
  have run2: "run_task (action_class interrupted_action failing_interceptor) demo_task
      (snd (log_begin (action_class interrupted_action failing_interceptor) demo_task demo_world)) =
    (Inl (Exn (NonException ''KeyboardInterrupt'') []), demo_task,
     snd (log_begin (action_class interrupted_action failing_interceptor) demo_task demo_world))"
    by (simp add: action_class_def interrupted_action_def)
  have pe: "process_exception (action_class raising_action Task_process_exception) =
      Task_process_exception"
    by (simp add: action_class_def)
  show ?thesis
    using Task_call_failure [OF demo_invariant run1]
      Task_call_failure [OF demo_invariant run2]
    by (simp add: pe Task_process_exception_def) (simp add: action_class_def demo_task_def)
qed

text \<open>
  C2 as stated does not hold for every instance. With an interceptor that raises, the call
  raises the interceptor's exception and not the \<^verbatim>\<open>ValueError\<close> of the action. With an
  action that is interrupted, the reporting interceptor of \<^verbatim>\<open>BaseTask\<close> is not invoked: the
  client has received no call, while one invocation would have left calls.
\<close>

theorem interceptor_counterexample:
  "fst (Task_call (action_class raising_action failing_interceptor) demo_task demo_world) \<noteq>
     Inl (Exn (UserException ''ValueError'') ''boom'') \<and>
   calls (sentry (project_config (snd (snd
     (Task_call (action_class interrupted_action (BaseTask_process_exception ''Job''))
        demo_task demo_world))))) = [] \<and>
   calls (sentry (project_config (snd
     (BaseTask_process_exception ''Job'' demo_task (Exn (NonException ''KeyboardInterrupt'') [])
        demo_world)))) \<noteq> []"
proof -
  have a: "Task_call (action_class raising_action failing_interceptor) demo_task demo_world =
    (Inl (Exn (UserException ''ConnectionError'') ''report not sent''), demo_task,
     snd (log_begin (action_class raising_action failing_interceptor) demo_task demo_world))"
    by (simp add: Task_call_run [OF demo_invariant])
       (simp add: action_class_def raising_action_def failing_interceptor_def
          except_Exception_def)
  have b: "Task_call (action_class interrupted_action (BaseTask_process_exception ''Job''))
        demo_task demo_world =
    (Inl (Exn (NonException ''KeyboardInterrupt'') []), demo_task,
     snd (log_begin (action_class interrupted_action (BaseTask_process_exception ''Job''))
        demo_task demo_world))"
    by (simp add: Task_call_run [OF demo_invariant])
       (simp add: action_class_def interrupted_action_def except_Exception_def)
  have c: "calls (sentry (project_config (snd
     (BaseTask_process_exception ''Job'' demo_task (Exn (NonException ''KeyboardInterrupt'') [])
        demo_world)))) \<noteq> []"
    by (simp add: BaseTask_process_exception_def demo_world_def demo_project_def
        captureException_def tags_context_def logger_info_def Let_def)
  show ?thesis
    by (simp add: a b c demo_log_begin) (simp add: demo_world_def demo_project_def)
qed

text \<open>
  C8, as the code has it. On the failure path the call assigns neither \<^verbatim>\<open>result\<close> nor
  \<^verbatim>\<open>return_values\<close>: after the call both are what the action left when it raised. They are
  at their values from before the call exactly when the action itself did not write them
  before raising, as in the example.
\<close>

theorem Task_call_failure_frame:
  assumes "salesforce_task cls \<longrightarrow> org_config self \<noteq> None"
    and "run_task cls self (snd (log_begin cls self w)) = (Inl e, self2, w2)"
  shows "result (fst (snd (Task_call cls self w))) = result self2 \<and>
         return_values (fst (snd (Task_call cls self w))) = return_values self2"
  by (auto simp: Task_call_run [OF assms(1)] assms(2) except_Exception_def
      split: prod.splits option.splits)

theorem Task_call_failure_frame_witness:
  "salesforce_task (action_class raising_action Task_process_exception) \<and>
   org_config demo_task \<noteq> None \<and>
   result (fst (snd (Task_call (action_class raising_action Task_process_exception)
     demo_task demo_world))) = VNone \<and>
   return_values (fst (snd (Task_call (action_class raising_action Task_process_exception)
     demo_task demo_world))) = []"
proof -
  have run: "run_task (action_class raising_action Task_process_exception) demo_task
      (snd (log_begin (action_class raising_action Task_process_exception) demo_task demo_world)) =
    (Inl (Exn (UserException ''ValueError'') ''boom''), demo_task,
     snd (log_begin (action_class raising_action Task_process_exception) demo_task demo_world))"
    by (simp add: action_class_def raising_action_def)
  show ?thesis
    using Task_call_failure_frame [OF demo_invariant run]
    by (simp add: demo_task_def) (simp add: action_class_def)
qed

text \<open>
  C8 as stated does not hold for every action: an action that stores a return value and then
  raises leaves \<^verbatim>\<open>return_values\<close> changed, and the call does not restore it.
\<close>

theorem partial_action_counterexample:
  "return_values (fst (snd (Task_call (action_class partial_action Task_process_exception)
     demo_task demo_world))) \<noteq> return_values demo_task"
proof -
  have "Task_call (action_class partial_action Task_process_exception) demo_task demo_world =
    (Inl (Exn (UserException ''ValueError'') ''boom''),
     demo_task\<lparr>return_values := [(''step'', VInt 1)]\<rparr>,
     snd (log_begin (action_class partial_action Task_process_exception) demo_task demo_world))"
    by (simp add: Task_call_run [OF demo_invariant])
       (simp add: action_class_def partial_action_def Task_process_exception_def dict_set_def
          demo_task_def except_Exception_def)
  then show ?thesis
    by (simp add: demo_task_def)
qed

section \<open>Reporting an intercepted failure\<close>

lemma fold_option_tags:
  "fold (\<lambda>(key, value) acc. dict_set acc (''option_'' @ key) value) opts tags =
   dict_update tags (map (\<lambda>(key, value). (''option_'' @ key, value)) opts)"
  unfolding dict_update_def
  by (induction opts arbitrary: tags) (auto split: prod.splits)

lemma map_of_prefixed:
  "map_of (map (\<lambda>(key, value). (p @ key, value)) opts) k =
     (if prefix p k then map_of opts (drop (length p) k) else None)"
proof (induction opts)
  case Nil
  then show ?case by simp
next
  case (Cons item opts)
  obtain key val where item: "item = (key, val)" by (cases item)
  show ?case
  proof (cases "k = p @ key")
    case True
    then show ?thesis by (simp add: item)
  next
    case False
    then have "prefix p k \<Longrightarrow> drop (length p) k \<noteq> key"
      by (auto simp: prefix_def)
    with False show ?thesis
      by (auto simp: item Cons.IH)
  qed
qed

lemma distinct_prefixed:
  assumes "distinct (map fst opts)"
  shows "distinct (map fst (map (\<lambda>(key, value). (p @ key, value)) opts))"
proof -
  have "map fst (map (\<lambda>(key, value). (p @ key, value)) opts) = map ((@) p) (map fst opts)"
    by (induction opts) auto
  moreover have "distinct (map ((@) p) (map fst opts))"
    using assms by (simp add: distinct_map inj_on_def del: map_map)
  ultimately show ?thesis
    by (simp only:)
qed

lemma map_of_BaseTask_tags:
  assumes "distinct (map fst (heap w ! options self))"
  shows "map_of (BaseTask_tags name self w) k =
     (if k = ''task class'' then Some (VStr name)
      else if k = ''org username'' then map_option (\<lambda>oc. VStr (username oc)) (org_config self)
      else if k = ''scratch org''
        then map_option (\<lambda>oc. VBool (scratch oc = VBool True)) (org_config self)
      else if prefix ''option_'' k then map_of (heap w ! options self) (drop 7 k)
      else None)"
proof -
  let ?opts = "map (\<lambda>(key, value). (''option_'' @ key, value)) (heap w ! options self)"
  let ?tags1 = "case org_config self of
                  None \<Rightarrow> [(''task class'', VStr name)]
                | Some oc \<Rightarrow>
                    dict_set (dict_set [(''task class'', VStr name)] ''org username''
                      (VStr (username oc))) ''scratch org'' (VBool (scratch oc = VBool True))"
  have len: "length ''option_'' = 7"
    by simp
  have tags: "BaseTask_tags name self w = dict_update ?tags1 ?opts"
    unfolding BaseTask_tags_def Let_def fold_option_tags ..
  have opts: "map_of (rev ?opts) k =
      (if prefix ''option_'' k then map_of (heap w ! options self) (drop 7 k) else None)"
    unfolding map_of_rev_distinct [OF distinct_prefixed [OF assms]] map_of_prefixed len ..
  have tags1: "map_of ?tags1 k =
      (if k = ''task class'' then Some (VStr name)
       else if k = ''org username'' then map_option (\<lambda>oc. VStr (username oc)) (org_config self)
       else if k = ''scratch org''
         then map_option (\<lambda>oc. VBool (scratch oc = VBool True)) (org_config self)
       else None)"
    by (cases "org_config self") (auto simp: dict_set_def)
  have no: "\<not> prefix ''option_'' ''task class''" "\<not> prefix ''option_'' ''org username''"
    "\<not> prefix ''option_'' ''scratch org''"
    by simp_all
  show ?thesis
  proof (cases "prefix ''option_'' k")
    case True
    with no have ne: "k \<noteq> ''task class''" "k \<noteq> ''org username''" "k \<noteq> ''scratch org''"
      by auto
    then have "map_of ?tags1 k = None"
      by (simp only: tags1 if_False)
    then have "map_of (BaseTask_tags name self w) k = map_of (heap w ! options self) (drop 7 k)"
      by (simp only: tags map_of_dict_update map_add_def opts True if_True split: option.split)
         simp
    then show ?thesis
      using ne True by (simp only: if_False if_True)
  next
    case False
    then have "map_of (BaseTask_tags name self w) k = map_of ?tags1 k"
      by (simp only: tags map_of_dict_update map_add_def opts if_False option.case)
    then show ?thesis
      using False by (simp only: tags1 if_False)
  qed
qed

lemma BaseTask_process_exception_returns:
  "fst (BaseTask_process_exception name self e w) = None"
  by (simp add: BaseTask_process_exception_def Let_def captureException_def)

text \<open>
  C9. When \<^verbatim>\<open>use_sentry\<close> is set, \<^verbatim>\<open>BaseTask._process_exception\<close> returns normally after
  logging one line, passing the tags to the client with \<^verbatim>\<open>tags_context\<close>, reporting the
  exception with \<^verbatim>\<open>captureException\<close>, and storing the handle the client answered in
  \<^verbatim>\<open>project_config.sentry_event\<close>. The tags are exactly: \<^verbatim>\<open>task class\<close> with the class
  name; when an org config is present, \<^verbatim>\<open>org username\<close> with its username and
  \<^verbatim>\<open>scratch org\<close> with whether its \<^verbatim>\<open>scratch\<close> is \<^verbatim>\<open>True\<close>; and for every option, the key
  \<^verbatim>\<open>option_\<close> followed by the option name with the option's value as it is. No other key
  is a tag.
\<close>

theorem BaseTask_process_exception_reports:
  assumes "use_sentry (project_config w)"
    and "distinct (map fst (heap w ! options self))"
  shows "case BaseTask_process_exception name self e w of
           (raised, w') \<Rightarrow>
             raised = None \<and>
             heap w' = heap w \<and>
             logger w' = logger w @ [''Logging error to sentry.io''] \<and>
             calls (sentry (project_config w')) =
               calls (sentry (project_config w)) @
               [TagsContext (BaseTask_tags name self w), CaptureException e] \<and>
             sentry_event (project_config w') = Some (response (sentry (project_config w))) \<and>
             (\<forall>k. dict_get (BaseTask_tags name self w) k =
                (if k = ''task class'' then Some (VStr name)
                 else if k = ''org username''
                   then map_option (\<lambda>oc. VStr (username oc)) (org_config self)
                 else if k = ''scratch org''
                   then map_option (\<lambda>oc. VBool (scratch oc = VBool True)) (org_config self)
                 else if prefix ''option_'' k
                   then dict_get (heap w ! options self) (drop 7 k)
                 else None))"
proof -
  have same: "BaseTask_tags name self (logger_info line w) = BaseTask_tags name self w" for line
    by (simp add: BaseTask_tags_def logger_info_def)
  have run: "BaseTask_process_exception name self e w =
    (None, (logger_info ''Logging error to sentry.io'' w)
       \<lparr>project_config := (project_config w)
          \<lparr>sentry := (sentry (project_config w))
              \<lparr>calls := calls (sentry (project_config w)) @
                 [TagsContext (BaseTask_tags name self w), CaptureException e]\<rparr>,
            sentry_event := Some (response (sentry (project_config w)))\<rparr>\<rparr>)"
    using assms(1)
    by (simp add: BaseTask_process_exception_def Let_def same captureException_def
        tags_context_def) (simp add: logger_info_def)
  have tags: "\<forall>k. dict_get (BaseTask_tags name self w) k =
                (if k = ''task class'' then Some (VStr name)
                 else if k = ''org username''
                   then map_option (\<lambda>oc. VStr (username oc)) (org_config self)
                 else if k = ''scratch org''
                   then map_option (\<lambda>oc. VBool (scratch oc = VBool True)) (org_config self)
                 else if prefix ''option_'' k
                   then dict_get (heap w ! options self) (drop 7 k)
                 else None)"
    unfolding dict_get_def using map_of_BaseTask_tags [OF assms(2)] by blast
  show ?thesis
    unfolding run using tags by (simp add: logger_info_def)
qed

theorem BaseTask_process_exception_reports_witness:
  "use_sentry (project_config demo_world) \<and>
   distinct (map fst (heap demo_world ! options demo_task)) \<and>
   calls (sentry (project_config (snd
     (BaseTask_process_exception ''Job'' demo_task (Exn (UserException ''ValueError'') ''boom'')
        demo_world)))) =
     [TagsContext
        [(''task class'', VStr ''Job''), (''org username'', VStr ''user@example.com''),
         (''scratch org'', VBool True), (''option_x'', VInt 1),
         (''option_y'', VStr ''$project_config.foo''),
         (''option_z'', VStr ''$project_config.missing'')],
      CaptureException (Exn (UserException ''ValueError'') ''boom'')] \<and>
   sentry_event (project_config (snd
     (BaseTask_process_exception ''Job'' demo_task (Exn (UserException ''ValueError'') ''boom'')
        demo_world))) = Some (VStr ''event-1'')"
proof -
  have h1: "use_sentry (project_config demo_world)"
    by (simp add: demo_world_def demo_project_def)
  have h2: "distinct (map fst (heap demo_world ! options demo_task))"
    by (simp add: demo_world_def demo_task_def)
  have tags: "BaseTask_tags ''Job'' demo_task demo_world =
        [(''task class'', VStr ''Job''), (''org username'', VStr ''user@example.com''),
         (''scratch org'', VBool True), (''option_x'', VInt 1),
         (''option_y'', VStr ''$project_config.foo''),
         (''option_z'', VStr ''$project_config.missing'')]"
    by (simp add: BaseTask_tags_def demo_task_def demo_world_def demo_org_def dict_set_def)
  show ?thesis
    using h1 h2
      BaseTask_process_exception_reports [OF h1 h2, of "''Job''"
        "Exn (UserException ''ValueError'') ''boom''"]
    by (simp add: tags split: prod.splits) (simp add: demo_world_def demo_project_def)
qed

end
